theory Spec2Isabelle
  imports Complex_Main "HOL-Library.Word"
begin

section \<open>Values and messages\<close>

text \<open>
  The loudness values of \<^verbatim>\<open>final.py\<close> are numpy \<^verbatim>\<open>float64\<close> numbers. They are
  modelled as real numbers extended with \<open>NaN\<close>, the value numpy returns (with a
  warning, not an exception) for the mean of an empty array and for the square root of
  a negative number. Rounding of \<^verbatim>\<open>float64\<close> arithmetic is not modelled.
\<close>

datatype npfloat = Num real | NaN

datatype py_error = ValueError | IndexError | OSError

text \<open>
  Every \<^verbatim>\<open>print\<close> of the program is one constructor; a number formatted with
  \<^verbatim>\<open>:.2f\<close> is kept as the number itself.
\<close>

datatype message =
    CombinedStats npfloat npfloat
  | NoCombinedData
  | DeviceStats nat npfloat npfloat
  | DeviceNoData nat
  | MightBeFaulty nat npfloat
  | HasNoData nat
  | DeviceError nat py_error

definition FAULT_THRESHOLD :: real where
  "FAULT_THRESHOLD = 10"

section \<open>numpy primitives\<close>

text \<open>Arithmetic on an array propagates \<open>NaN\<close>: one \<open>NaN\<close> element makes every sum \<open>NaN\<close>.\<close>

fun reals_of :: "npfloat list \<Rightarrow> real list option" where
  "reals_of [] = Some []"
| "reals_of (NaN # xs) = None"
| "reals_of (Num r # xs) = (case reals_of xs of None \<Rightarrow> None | Some rs \<Rightarrow> Some (r # rs))"

definition mean_real :: "real list \<Rightarrow> real" where
  "mean_real rs = sum_list rs / real (length rs)"

text \<open>
  \<^verbatim>\<open>np.mean\<close>: sum over count; the mean of an empty array is \<open>NaN\<close>. The sum is
  exact here, where numpy adds \<^verbatim>\<open>float64\<close> values in array order and rounds after
  each addition. Nothing below depends on the order in which the samples are added.
\<close>

definition np_mean :: "npfloat list \<Rightarrow> npfloat" where
  "np_mean xs =
     (case reals_of xs of
        None \<Rightarrow> NaN
      | Some rs \<Rightarrow> if rs = [] then NaN else Num (mean_real rs))"

text \<open>
  \<^verbatim>\<open>np.var\<close> with its default \<^verbatim>\<open>ddof=0\<close>: the mean of the squared deviations
  from the mean.
\<close>

definition np_var :: "npfloat list \<Rightarrow> npfloat" where
  "np_var xs =
     (case reals_of xs of
        None \<Rightarrow> NaN
      | Some rs \<Rightarrow>
          if rs = [] then NaN
          else Num (mean_real (map (\<lambda>x. (x - mean_real rs)\<^sup>2) rs)))"

text \<open>\<^verbatim>\<open>np.sqrt\<close>: \<open>NaN\<close> on a negative argument.\<close>

definition np_sqrt :: "npfloat \<Rightarrow> npfloat" where
  "np_sqrt x = (case x of NaN \<Rightarrow> NaN | Num r \<Rightarrow> if r < 0 then NaN else Num (sqrt r))"

text \<open>A comparison with \<open>NaN\<close> is false.\<close>

definition np_less :: "npfloat \<Rightarrow> real \<Rightarrow> bool" where
  "np_less x t = (case x of NaN \<Rightarrow> False | Num r \<Rightarrow> r < t)"

text \<open>\<^verbatim>\<open>np.concatenate\<close> raises \<^verbatim>\<open>ValueError\<close> on an empty sequence of arrays.\<close>

definition np_concatenate :: "'a list list \<Rightarrow> py_error + 'a list" where
  "np_concatenate arrays = (if arrays = [] then Inl ValueError else Inr (concat arrays))"

text \<open>
  \<^verbatim>\<open>np.frombuffer(data, dtype=np.int16)\<close>: two bytes per sample, low byte first;
  \<^verbatim>\<open>ValueError\<close> when the byte count is not a multiple of the sample size.
\<close>

fun frombuffer :: "8 word list \<Rightarrow> py_error + 16 word list" where
  "frombuffer [] = Inr []"
| "frombuffer [b] = Inl ValueError"
| "frombuffer (lo # hi # rest) =
     (case frombuffer rest of
        Inl e \<Rightarrow> Inl e
      | Inr ws \<Rightarrow> Inr (word_cat hi lo # ws))"

section \<open>The device buffer\<close>

text \<open>Python's \<^verbatim>\<open>xs[-n:]\<close> for \<open>n \<ge> 0\<close>; \<^verbatim>\<open>xs[-0:]\<close> is the whole list.\<close>

definition slice_last :: "nat \<Rightarrow> 'a list \<Rightarrow> 'a list" where
  "slice_last n xs = (if n = 0 then xs else drop (length xs - n) xs)"

text \<open>
  Lines 97 to 99 of \<^verbatim>\<open>final.py\<close>, with the limit as a parameter:
  \<^verbatim>\<open>buffer[index].append(volume)\<close>, then
  \<^verbatim>\<open>if len(buffer[index]) > 100: buffer[index] = buffer[index][-100:]\<close>.
\<close>

definition buffer_push :: "nat \<Rightarrow> 'a list \<Rightarrow> 'a \<Rightarrow> 'a list" where
  "buffer_push n b v =
     (let b' = b @ [v] in if length b' > n then slice_last n b' else b')"

definition BUFFER_LIMIT :: nat where
  "BUFFER_LIMIT = 100"

text \<open>
  \<^verbatim>\<open>mainThread\<close> of \<^verbatim>\<open>audiosensors.py\<close> trims every buffer on each pass:
  \<^verbatim>\<open>buffer[i] = buffer[i][-buffer_width:]\<close>.
\<close>

definition limit_buffers :: "nat \<Rightarrow> 'a list list \<Rightarrow> 'a list list" where
  "limit_buffers buffer_width buffer = map (slice_last buffer_width) buffer"

section \<open>Statistics and fault detection\<close>

definition calculate_combined_stats :: "npfloat list list \<Rightarrow> py_error + message" where
  "calculate_combined_stats buffer =
     (if list_ex (\<lambda>b. length b > 0) buffer then
        (case np_concatenate (filter (\<lambda>b. length b > 0) buffer) of
           Inl e \<Rightarrow> Inl e
         | Inr combined_buffer \<Rightarrow>
             Inr (CombinedStats (np_mean combined_buffer) (np_var combined_buffer)))
      else Inr NoCombinedData)"

text \<open>\<^verbatim>\<open>buffer[index]\<close> raises \<^verbatim>\<open>IndexError\<close> when there is no such buffer.\<close>

definition calculate_device_stats :: "npfloat list list \<Rightarrow> nat \<Rightarrow> py_error + message" where
  "calculate_device_stats buffer index =
     (if index < length buffer then
        (if length (buffer ! index) > 0 then
           Inr (DeviceStats index (np_mean (buffer ! index)) (np_var (buffer ! index)))
         else Inr (DeviceNoData index))
      else Inl IndexError)"

fun detect_device :: "nat \<times> npfloat list \<Rightarrow> message list" where
  "detect_device (i, b) =
     (if length b > 0 \<and> np_less (np_mean b) FAULT_THRESHOLD then [MightBeFaulty i (np_mean b)]
      else if length b = 0 then [HasNoData i]
      else [])"

definition detect_faulty_sources :: "npfloat list list \<Rightarrow> message list" where
  "detect_faulty_sources buffer = concat (map detect_device (enumerate 0 buffer))"

text \<open>One aggregation cycle: the two reports of \<^verbatim>\<open>periodic_tasks\<close>, in order.\<close>

definition periodic_tasks :: "npfloat list list \<Rightarrow> py_error + message list" where
  "periodic_tasks buffer =
     (case calculate_combined_stats buffer of
        Inl e \<Rightarrow> Inl e
      | Inr m \<Rightarrow> Inr (m # detect_faulty_sources buffer))"

section \<open>The capture loop\<close>

text \<open>
  Line 90 of \<^verbatim>\<open>final.py\<close>: \<^verbatim>\<open>np.sqrt(np.mean(signal ** 2))\<close>. The square of an
  \<^verbatim>\<open>int16\<close> array is an \<^verbatim>\<open>int16\<close> array, so each square wraps around modulo
  \<open>2\<^sup>1\<^sup>6\<close>; the mean of the integer array is then taken in floating point.
\<close>

definition square_int16 :: "16 word list \<Rightarrow> 16 word list" where
  "square_int16 signal = map (\<lambda>s. s * s) signal"

definition float_of_int16 :: "16 word \<Rightarrow> npfloat" where
  "float_of_int16 w = Num (real_of_int (sint w))"

definition volume_of :: "16 word list \<Rightarrow> npfloat" where
  "volume_of signal = np_sqrt (np_mean (map float_of_int16 (square_int16 signal)))"

text \<open>Lines 89 and 90 together, from the bytes of one frame.\<close>

definition frame_volume :: "8 word list \<Rightarrow> py_error + npfloat" where
  "frame_volume data =
     (case frombuffer data of
        Inl e \<Rightarrow> Inl e
      | Inr signal \<Rightarrow> Inr (volume_of signal))"

text \<open>
  The shared state of the program: the global list of buffers, the global quit flag and
  what has been printed. The label and the plot are presentation and are left out.
\<close>

record monitor =
  buffer :: "npfloat list list"
  quit_flag :: bool
  printed :: "message list"

datatype read_result = Frame "8 word list" | ReadRaises py_error

datatype worker = Running | Stopped

definition print_msg :: "message \<Rightarrow> monitor \<Rightarrow> monitor" where
  "print_msg m s = s\<lparr>printed := printed s @ [m]\<rparr>"

text \<open>
  One pass through the body of \<^verbatim>\<open>while True\<close> in \<^verbatim>\<open>log_sound\<close>, given what
  \<^verbatim>\<open>stream.read\<close> did. Any exception inside \<^verbatim>\<open>try\<close> is printed by the handler,
  which then leaves the loop.
\<close>

definition log_sound_iter :: "nat \<Rightarrow> read_result \<Rightarrow> monitor \<Rightarrow> monitor \<times> worker" where
  "log_sound_iter index rd s =
     (case rd of
        ReadRaises e \<Rightarrow> (print_msg (DeviceError index e) s, Stopped)
      | Frame data \<Rightarrow>
          (case frame_volume data of
             Inl e \<Rightarrow> (print_msg (DeviceError index e) s, Stopped)
           | Inr volume \<Rightarrow>
               if index < length (buffer s) then
                 (let s1 = s\<lparr>buffer := (buffer s)
                             [index := buffer_push BUFFER_LIMIT (buffer s ! index) volume]\<rparr>
                  in case calculate_device_stats (buffer s1) index of
                       Inl e \<Rightarrow> (print_msg (DeviceError index e) s1, Stopped)
                     | Inr m \<Rightarrow>
                         (let s2 = print_msg m s1
                          in if quit_flag s2 then (s2, Stopped) else (s2, Running)))
               else (print_msg (DeviceError index IndexError) s, Stopped)))"

text \<open>
  The loop over the successive outcomes of \<^verbatim>\<open>stream.read\<close>. When the outcomes run
  out the worker is still running, waiting in the next read.
\<close>

fun log_sound :: "nat \<Rightarrow> read_result list \<Rightarrow> monitor \<Rightarrow> monitor \<times> worker" where
  "log_sound index [] s = (s, Running)"
| "log_sound index (rd # rds) s =
     (case log_sound_iter index rd s of
        (s', Stopped) \<Rightarrow> (s', Stopped)
      | (s', Running) \<Rightarrow> log_sound index rds s')"

definition exit_method :: "monitor \<Rightarrow> monitor" where
  "exit_method s = s\<lparr>quit_flag := True\<rparr>"

text \<open>
  Everything that acts on the shared state, interleaved in any order: the quit signal,
  a pass of some device's capture loop, an aggregation cycle.
\<close>

datatype action = Exit | Capture nat read_result | Periodic

fun step :: "monitor \<Rightarrow> action \<Rightarrow> monitor" where
  "step s Exit = exit_method s"
| "step s (Capture index rd) = fst (log_sound_iter index rd s)"
| "step s Periodic =
     (case periodic_tasks (buffer s) of
        Inl e \<Rightarrow> s
      | Inr ms \<Rightarrow> s\<lparr>printed := printed s @ ms\<rparr>)"

definition run :: "monitor \<Rightarrow> action list \<Rightarrow> monitor" where
  "run s acts = foldl step s acts"

section \<open>Facts about the numpy primitives\<close>

lemma reals_of_map_Num: "reals_of (map Num rs) = Some rs"
  by (induction rs) simp_all

lemma reals_of_replicate: "reals_of (replicate n (Num r)) = Some (replicate n r)"
  by (induction n) simp_all

lemma np_mean_Num: "rs \<noteq> [] \<Longrightarrow> np_mean (map Num rs) = Num (mean_real rs)"
  by (simp add: np_mean_def reals_of_map_Num)

lemma np_var_Num:
  "rs \<noteq> [] \<Longrightarrow> np_var (map Num rs) = Num (mean_real (map (\<lambda>x. (x - mean_real rs)\<^sup>2) rs))"
  by (simp add: np_var_def reals_of_map_Num)

lemma np_less_iff: "np_less x t \<longleftrightarrow> (\<exists>r. x = Num r \<and> r < t)"
  by (cases x) (simp_all add: np_less_def)

lemma frombuffer_odd: "odd (length data) \<Longrightarrow> frombuffer data = Inl ValueError"
  by (induction data rule: frombuffer.induct) simp_all

lemma frombuffer_even:
  "even (length data) \<Longrightarrow> \<exists>signal. frombuffer data = Inr signal \<and> 2 * length signal = length data"
  by (induction data rule: frombuffer.induct) auto

lemma frombuffer_replicate:
  "frombuffer (concat (replicate n [lo, hi])) = Inr (replicate n (word_cat hi lo))"
  by (induction n) simp_all

section \<open>The buffer keeps the most recent samples\<close>

lemma buffer_push_drop:
  "0 < n \<Longrightarrow> buffer_push n b v = drop (Suc (length b) - n) (b @ [v])"
  by (simp add: buffer_push_def slice_last_def Let_def)

lemma buffer_push_suffix:
  assumes "0 < n"
  shows "buffer_push n (drop (length xs - n) xs) v = drop (length (xs @ [v]) - n) (xs @ [v])"
proof (cases "length xs \<le> n")
  case True
  then show ?thesis using assms by (simp add: buffer_push_drop)
next
  case False
  then have "Suc (length xs) - n = Suc (length xs - n)" by simp
  then show ?thesis using assms False by (simp add: buffer_push_drop)
qed

lemma foldl_buffer_push:
  assumes "0 < n"
  shows "foldl (buffer_push n) (drop (length xs - n) xs) vs = drop (length (xs @ vs) - n) (xs @ vs)"
proof (induction vs arbitrary: xs)
  case Nil
  show ?case by simp
next
  case (Cons v vs)
  show ?case
    using Cons.IH [of "xs @ [v]"] buffer_push_suffix [OF assms, of xs v] by simp
qed

text \<open>
  Claim C1. Starting from the empty buffer a device gets at start-up, after the pushes
  \<open>vs\<close> into a buffer of capacity \<open>n\<close> the buffer holds \<open>min (length vs) n\<close> samples,
  they are the last \<open>n\<close> values pushed, in the order pushed, and the length does not
  exceed \<open>n\<close>. The capacity of \<^verbatim>\<open>final.py\<close> is \<open>BUFFER_LIMIT\<close>; a capacity is positive.
\<close>

theorem buffer_holds_most_recent:
  assumes "0 < n"
  shows "length (foldl (buffer_push n) [] vs) = min (length vs) n
       \<and> foldl (buffer_push n) [] vs = drop (length vs - n) vs
       \<and> length (foldl (buffer_push n) [] vs) \<le> n"
  using foldl_buffer_push [OF assms, of "[]" vs] by auto

theorem buffer_holds_most_recent_witness:
  "foldl (buffer_push 2) [] [Num 5, Num 6, Num 7] = [Num 6, Num 7]
   \<and> length (foldl (buffer_push 2) [] [Num 5, Num 6, Num 7]) = 2"
  using buffer_holds_most_recent [of 2 "[Num 5, Num 6, Num 7]"] by simp

text \<open>The trimming pass of \<^verbatim>\<open>audiosensors.py\<close> leaves no buffer longer than the width.\<close>

lemma limit_buffers_length:
  "0 < w \<Longrightarrow> b \<in> set (limit_buffers w bs) \<Longrightarrow> length b \<le> w"
  by (auto simp: limit_buffers_def slice_last_def)

section \<open>Fault flags\<close>

lemma in_set_enumerate_iff:
  "(i, b) \<in> set (enumerate 0 bs) \<longleftrightarrow> i < length bs \<and> bs ! i = b"
  by (auto simp: in_set_enumerate_eq)

lemma MightBeFaulty_in_detect_device:
  "MightBeFaulty j m \<in> set (detect_device (i, b)) \<longleftrightarrow>
     j = i \<and> b \<noteq> [] \<and> np_less (np_mean b) FAULT_THRESHOLD \<and> m = np_mean b"
  by auto

lemma HasNoData_in_detect_device:
  "HasNoData j \<in> set (detect_device (i, b)) \<longleftrightarrow> j = i \<and> b = []"
  by auto

lemma MightBeFaulty_in_detect:
  "MightBeFaulty i m \<in> set (detect_faulty_sources bs) \<longleftrightarrow>
     i < length bs \<and> bs ! i \<noteq> [] \<and> np_less (np_mean (bs ! i)) FAULT_THRESHOLD
     \<and> m = np_mean (bs ! i)"
proof -
  have "MightBeFaulty i m \<in> set (detect_faulty_sources bs) \<longleftrightarrow>
        (\<exists>p \<in> set (enumerate 0 bs). MightBeFaulty i m \<in> set (detect_device p))"
    by (simp add: detect_faulty_sources_def del: detect_device.simps)
  also have "\<dots> \<longleftrightarrow>
        (\<exists>j b. (j, b) \<in> set (enumerate 0 bs) \<and> MightBeFaulty i m \<in> set (detect_device (j, b)))"
    by (simp add: Bex_def del: detect_device.simps)
  also have "\<dots> \<longleftrightarrow>
        i < length bs \<and> bs ! i \<noteq> [] \<and> np_less (np_mean (bs ! i)) FAULT_THRESHOLD
        \<and> m = np_mean (bs ! i)"
    unfolding MightBeFaulty_in_detect_device in_set_enumerate_iff by auto
  finally show ?thesis .
qed

lemma HasNoData_in_detect:
  "HasNoData i \<in> set (detect_faulty_sources bs) \<longleftrightarrow> i < length bs \<and> bs ! i = []"
proof -
  have "HasNoData i \<in> set (detect_faulty_sources bs) \<longleftrightarrow>
        (\<exists>j b. (j, b) \<in> set (enumerate 0 bs) \<and> HasNoData i \<in> set (detect_device (j, b)))"
    by (simp add: detect_faulty_sources_def Bex_def del: detect_device.simps)
  also have "\<dots> \<longleftrightarrow> i < length bs \<and> bs ! i = []"
    unfolding HasNoData_in_detect_device in_set_enumerate_iff by auto
  finally show ?thesis .
qed

text \<open>
  Claim C2. Device \<open>i\<close> is reported as possibly faulty exactly when it has a buffer, the
  buffer is not empty and the mean of the buffer is below \<open>FAULT_THRESHOLD\<close>; it is
  reported as having no data exactly when its buffer is empty. With the buffers
  \<open>[50, 52, 51]\<close> and \<open>[2, 1, 3]\<close> and the threshold 10, device 1 is reported faulty,
  device 0 is not, and the combined mean is 26.5.
\<close>

theorem fault_flags:
  "(MightBeFaulty i m \<in> set (detect_faulty_sources bs) \<longleftrightarrow>
      i < length bs \<and> bs ! i \<noteq> []
      \<and> (\<exists>r. np_mean (bs ! i) = Num r \<and> r < FAULT_THRESHOLD) \<and> m = np_mean (bs ! i))
   \<and> (HasNoData i \<in> set (detect_faulty_sources bs) \<longleftrightarrow> i < length bs \<and> bs ! i = [])
   \<and> FAULT_THRESHOLD = 10
   \<and> detect_faulty_sources [[Num 50, Num 52, Num 51], [Num 2, Num 1, Num 3]]
       = [MightBeFaulty 1 (Num 2)]
   \<and> calculate_combined_stats [[Num 50, Num 52, Num 51], [Num 2, Num 1, Num 3]]
       = Inr (CombinedStats (Num (53 / 2)) (Num (7211 / 12)))"
proof (intro conjI)
  show "MightBeFaulty i m \<in> set (detect_faulty_sources bs) \<longleftrightarrow>
      i < length bs \<and> bs ! i \<noteq> []
      \<and> (\<exists>r. np_mean (bs ! i) = Num r \<and> r < FAULT_THRESHOLD) \<and> m = np_mean (bs ! i)"
    by (simp only: MightBeFaulty_in_detect np_less_iff)
  show "HasNoData i \<in> set (detect_faulty_sources bs) \<longleftrightarrow> i < length bs \<and> bs ! i = []"
    by (rule HasNoData_in_detect)
  show "FAULT_THRESHOLD = 10"
    by (simp add: FAULT_THRESHOLD_def)
  show "detect_faulty_sources [[Num 50, Num 52, Num 51], [Num 2, Num 1, Num 3]]
       = [MightBeFaulty 1 (Num 2)]"
    by (simp add: detect_faulty_sources_def np_mean_def mean_real_def np_less_def
        FAULT_THRESHOLD_def enumerate_eq_zip upt_rec)
  show "calculate_combined_stats [[Num 50, Num 52, Num 51], [Num 2, Num 1, Num 3]]
       = Inr (CombinedStats (Num (53 / 2)) (Num (7211 / 12)))"
    by (simp add: calculate_combined_stats_def np_concatenate_def np_mean_def np_var_def
        mean_real_def power2_eq_square)
qed

text \<open>
  Claim C9. The comparison with the threshold is strict: a device whose mean equals
  \<open>FAULT_THRESHOLD\<close> is not reported faulty, and a device that is reported faulty has a
  mean strictly below it.
\<close>

theorem fault_comparison_strict:
  "(np_mean (bs ! i) = Num FAULT_THRESHOLD \<longrightarrow>
      MightBeFaulty i m \<notin> set (detect_faulty_sources bs))
   \<and> (MightBeFaulty i m \<in> set (detect_faulty_sources bs) \<longrightarrow>
      (\<exists>r. np_mean (bs ! i) = Num r \<and> r < FAULT_THRESHOLD))"
  by (auto simp: MightBeFaulty_in_detect np_less_iff)

theorem fault_comparison_strict_witness:
  "np_mean ([[Num 10]] ! 0) = Num FAULT_THRESHOLD
   \<and> MightBeFaulty 0 (Num 10) \<notin> set (detect_faulty_sources [[Num 10]])
   \<and> MightBeFaulty 0 (Num 9) \<in> set (detect_faulty_sources [[Num 9]])
   \<and> (\<exists>r. np_mean ([[Num 9]] ! 0) = Num r \<and> r < FAULT_THRESHOLD)"
proof -
  have a: "np_mean ([[Num 10]] ! 0) = Num FAULT_THRESHOLD"
    by (simp add: np_mean_def mean_real_def FAULT_THRESHOLD_def)
  have b: "MightBeFaulty 0 (Num 9) \<in> set (detect_faulty_sources [[Num 9]])"
    by (simp add: detect_faulty_sources_def np_mean_def mean_real_def np_less_def
        FAULT_THRESHOLD_def)
  show ?thesis
    using a b fault_comparison_strict [of "[[Num 10]]" 0 "Num 10"]
      fault_comparison_strict [of "[[Num 9]]" 0 "Num 9"]
    by blast
qed

section \<open>Empty buffers\<close>

lemma detect_all_empty:
  "\<forall>b\<in>set bs. b = [] \<Longrightarrow>
   concat (map detect_device (enumerate n bs)) = map HasNoData [n..<n + length bs]"
proof (induction bs arbitrary: n)
  case Nil
  show ?case by simp
next
  case (Cons b bs)
  then have ih: "concat (map detect_device (enumerate (Suc n) bs))
      = map HasNoData [Suc n..<Suc n + length bs]"
    by simp
  have b: "b = []" using Cons.prems by simp
  have u: "[n..<n + length (b # bs)] = n # [Suc n..<Suc n + length bs]"
    by (subst upt_rec) simp
  show ?case unfolding u using ih b by simp
qed

lemma list_ex_nonempty_iff: "list_ex (\<lambda>b. b \<noteq> []) bs \<longleftrightarrow> concat bs \<noteq> []"
  by (induction bs) simp_all

lemma concat_filter_nonempty: "concat (filter (\<lambda>b. b \<noteq> []) bs) = concat bs"
  by (induction bs) simp_all

lemma filter_nonempty_Nil: "filter (\<lambda>b. b \<noteq> []) bs = [] \<longleftrightarrow> concat bs = []"
  by (induction bs) simp_all

text \<open>
  The guard of \<^verbatim>\<open>calculate_combined_stats\<close> keeps \<^verbatim>\<open>np.concatenate\<close> away from
  the empty sequence, so the function never raises.
\<close>

lemma calculate_combined_stats_eq:
  "calculate_combined_stats bs =
     Inr (if concat bs = [] then NoCombinedData
          else CombinedStats (np_mean (concat bs)) (np_var (concat bs)))"
  by (simp add: calculate_combined_stats_def list_ex_nonempty_iff np_concatenate_def
      concat_filter_nonempty filter_nonempty_Nil)

text \<open>
  Claim C3. For an empty device buffer the per-device statistics are the explicit
  no-data report, not a number. When every buffer is empty the aggregation cycle
  completes with the no-data report for the combined statistics and one for each device;
  and the cycle raises on no input at all.
\<close>

theorem empty_buffers_report_no_data:
  "(i < length bs \<and> bs ! i = [] \<longrightarrow> calculate_device_stats bs i = Inr (DeviceNoData i))
   \<and> ((\<forall>b\<in>set bs. b = []) \<longrightarrow>
        calculate_combined_stats bs = Inr NoCombinedData
        \<and> periodic_tasks bs = Inr (NoCombinedData # map HasNoData [0..<length bs]))
   \<and> (\<exists>ms. periodic_tasks bs = Inr ms)"
proof (intro conjI impI)
  assume "i < length bs \<and> bs ! i = []"
  then show "calculate_device_stats bs i = Inr (DeviceNoData i)"
    by (simp add: calculate_device_stats_def)
next
  assume e: "\<forall>b\<in>set bs. b = []"
  then have c: "concat bs = []" by simp
  then show "calculate_combined_stats bs = Inr NoCombinedData"
    by (simp add: calculate_combined_stats_eq)
  show "periodic_tasks bs = Inr (NoCombinedData # map HasNoData [0..<length bs])"
    using detect_all_empty [OF e, of 0] c
    by (simp add: periodic_tasks_def calculate_combined_stats_eq detect_faulty_sources_def)
next
  show "\<exists>ms. periodic_tasks bs = Inr ms"
    by (simp add: periodic_tasks_def calculate_combined_stats_eq)
qed

theorem empty_buffers_report_no_data_witness:
  "calculate_device_stats [[], []] 0 = Inr (DeviceNoData 0)
   \<and> periodic_tasks [[], []] = Inr [NoCombinedData, HasNoData 0, HasNoData 1]"
  using empty_buffers_report_no_data [of 0 "[[], []]"] by (simp add: upt_rec)

section \<open>Combined statistics\<close>

text \<open>
  Claim C10. For a non-empty buffer of numbers \<open>rs\<close> with mean \<open>mu\<close>, the variance
  reported for the device, and for the pooled samples by the combined statistics, is the
  sum of the squared deviations from \<open>mu\<close> divided by the number of samples \<open>n\<close>, not
  by \<open>n - 1\<close>: for the samples 1 and 3 it is 1, not 2.
\<close>

theorem variance_is_population_variance:
  assumes "rs \<noteq> []"
    and "mu = sum_list rs / real (length rs)"
    and "v = sum_list (map (\<lambda>x. (x - mu)\<^sup>2) rs) / real (length rs)"
  shows "np_var (map Num rs) = Num v
   \<and> (i < length bs \<and> bs ! i = map Num rs \<longrightarrow>
        calculate_device_stats bs i = Inr (DeviceStats i (Num mu) (Num v)))
   \<and> (concat bs = map Num rs \<longrightarrow>
        calculate_combined_stats bs = Inr (CombinedStats (Num mu) (Num v)))"
proof -
  have m: "np_mean (map Num rs) = Num mu"
    using assms by (simp add: np_mean_Num mean_real_def)
  have v: "np_var (map Num rs) = Num v"
    using assms by (simp add: np_var_Num mean_real_def)
  show ?thesis
    using assms(1) m v by (simp add: calculate_device_stats_def calculate_combined_stats_eq)
qed

theorem variance_is_population_variance_witness:
  "calculate_device_stats [[Num 1, Num 3]] 0 = Inr (DeviceStats 0 (Num 2) (Num 1))
   \<and> calculate_combined_stats [[Num 1, Num 3]] = Inr (CombinedStats (Num 2) (Num 1))"
  using variance_is_population_variance [of "[1, 3]" 2 1 0 "[[Num 1, Num 3]]"]
  by simp

section \<open>Loudness of a frame\<close>

lemma volume_of_Nil: "volume_of [] = NaN"
  by (simp add: volume_of_def square_int16_def np_mean_def np_sqrt_def)

lemma volume_of_replicate:
  "0 < n \<Longrightarrow> volume_of (replicate n w) = np_sqrt (Num (real_of_int (sint (w * w))))"
  by (simp add: volume_of_def square_int16_def float_of_int16_def np_mean_def
      reals_of_replicate mean_real_def sum_list_replicate)

lemma word_cat_0_200: "(word_cat (0 :: 8 word) (200 :: 8 word) :: 16 word) = 200"
  by (simp add: word_cat_eq)

text \<open>
  Claim C6, as amended. On a frame made of whole 16-bit samples, the empty frame included,
  the loudness computation returns a value and does not raise. On a frame with an odd
  number of bytes it raises \<^verbatim>\<open>ValueError\<close>.
\<close>

theorem frame_volume_total_on_whole_samples:
  "(even (length data) \<longrightarrow> (\<exists>v. frame_volume data = Inr v))
   \<and> (odd (length data) \<longrightarrow> frame_volume data = Inl ValueError)"
  using frombuffer_even [of data] frombuffer_odd [of data]
  by (auto simp: frame_volume_def)

theorem frame_volume_total_on_whole_samples_witness:
  "even (length [0, 0 :: 8 word]) \<and> frame_volume [0, 0] = Inr (Num 0)
   \<and> odd (length [1 :: 8 word]) \<and> frame_volume [1] = Inl ValueError"
  using frame_volume_total_on_whole_samples [of "[0, 0]"]
    frame_volume_total_on_whole_samples [of "[1]"]
  by (simp add: frame_volume_def volume_of_def square_int16_def float_of_int16_def
      np_mean_def mean_real_def np_sqrt_def)

text \<open>
  The empty frame does not give the loudness zero, and the one-byte frame makes the
  computation raise.
\<close>

theorem empty_or_malformed_frame_counterexample:
  "frame_volume [] \<noteq> Inr (Num 0) \<and> frame_volume [1] = Inl ValueError"
  by (simp add: frame_volume_def volume_of_Nil)

text \<open>
  Claim C7. A frame of 4096 samples, each of them 200, has the root mean square 200. The
  program squares in 16 bits, where 40000 wraps around to -25536, so the mean is negative
  and the loudness is \<open>NaN\<close>.
\<close>

theorem loudness_of_constant_frame:
  "frame_volume (concat (replicate 4096 [200, 0])) = Inr NaN
   \<and> volume_of (replicate 4096 200) = NaN"
  by (simp add: frame_volume_def frombuffer_replicate volume_of_replicate word_cat_0_200
      np_sqrt_def)

text \<open>
  With the squares wrapped into the 16-bit range, the loudness the program computes is
  \<open>NaN\<close> or at most the square root of 32767; the sample 256 has the loudness 0.
\<close>

lemma sum_list_le_bound:
  fixes rs :: "real list"
  shows "\<forall>r\<in>set rs. r \<le> c \<Longrightarrow> sum_list rs \<le> real (length rs) * c"
  by (induction rs) (auto simp: algebra_simps)

lemma mean_real_le_bound:
  assumes "rs \<noteq> []" and "\<forall>r\<in>set rs. r \<le> c"
  shows "mean_real rs \<le> c"
proof -
  have "sum_list rs \<le> real (length rs) * c" using assms(2) by (rule sum_list_le_bound)
  moreover have "0 < real (length rs)" using assms(1) by simp
  ultimately show ?thesis
    unfolding mean_real_def by (simp add: pos_divide_le_eq mult.commute)
qed

lemma sint16_le: "real_of_int (sint (w :: 16 word)) \<le> 32767"
proof -
  have "sint w < 2 ^ (LENGTH(16) - 1)" by (rule sint_lt)
  then have "sint w \<le> 32767" by simp
  then have "real_of_int (sint w) \<le> real_of_int 32767" by (simp only: of_int_le_iff)
  then show ?thesis by simp
qed

lemma volume_of_range:
  "volume_of signal = NaN \<or> (\<exists>r. volume_of signal = Num r \<and> 0 \<le> r \<and> r \<le> sqrt 32767)"
proof (cases "signal = []")
  case True
  then show ?thesis
    by (simp add: volume_of_def square_int16_def np_mean_def np_sqrt_def)
next
  case False
  let ?rs = "map (\<lambda>s. real_of_int (sint (s * s))) signal"
  have m: "np_mean (map float_of_int16 (square_int16 signal)) = Num (mean_real ?rs)"
    using False np_mean_Num [of ?rs]
    by (simp add: square_int16_def float_of_int16_def comp_def)
  have "\<forall>r\<in>set ?rs. r \<le> 32767"
  proof
    fix r assume "r \<in> set ?rs"
    then have "r \<in> (\<lambda>s. real_of_int (sint (s * s))) ` set signal" by (simp only: set_map)
    then obtain s :: "16 word" where "r = real_of_int (sint (s * s))" by blast
    then show "r \<le> 32767" using sint16_le [of "s * s"] by simp
  qed
  then have le: "mean_real ?rs \<le> 32767"
    using False by (intro mean_real_le_bound) simp_all
  show ?thesis
    unfolding volume_of_def m using le by (simp add: np_sqrt_def)
qed

lemma volume_of_256: "volume_of [256] = Num 0"
  by (simp add: volume_of_def square_int16_def float_of_int16_def np_mean_def mean_real_def
      np_sqrt_def)

section \<open>The capture loop and the quit flag\<close>

lemma log_sound_append:
  "log_sound index (pre @ rds) s =
     (case log_sound index pre s of
        (s', Stopped) \<Rightarrow> (s', Stopped)
      | (s', Running) \<Rightarrow> log_sound index rds s')"
proof (induction pre arbitrary: s)
  case Nil
  show ?case by simp
next
  case (Cons rd pre)
  show ?case
  proof (cases "log_sound_iter index rd s")
    case (Pair s' w)
    then show ?thesis using Cons.IH [of s'] by (cases w) simp_all
  qed
qed

lemma log_sound_iter_ReadRaises:
  "log_sound_iter index (ReadRaises e) s = (print_msg (DeviceError index e) s, Stopped)"
  by (simp add: log_sound_iter_def)

text \<open>
  Claim C5, as amended. When a read of the capture loop raises, the error is printed and
  the loop ends at that pass: the buffers are left as they were, the worker is stopped,
  and whatever the stream would have delivered afterwards is never read.
\<close>

theorem failed_read_ends_capture_loop:
  "log_sound index (ReadRaises e # rds) s = (print_msg (DeviceError index e) s, Stopped)
   \<and> buffer (print_msg (DeviceError index e) s) = buffer s
   \<and> snd (log_sound index (pre @ ReadRaises e # rds) s) = Stopped
   \<and> log_sound index (pre @ ReadRaises e # rds) s = log_sound index (pre @ [ReadRaises e]) s"
proof -
  have a: "log_sound index (ReadRaises e # rds') s' = (print_msg (DeviceError index e) s', Stopped)"
    for rds' s'
    by (simp add: log_sound_iter_ReadRaises)
  have b: "log_sound index (pre @ ReadRaises e # rds') s =
     (case log_sound index pre s of
        (s', Stopped) \<Rightarrow> (s', Stopped)
      | (s', Running) \<Rightarrow> (print_msg (DeviceError index e) s', Stopped))" for rds'
    unfolding log_sound_append a ..
  have c: "snd (log_sound index (pre @ ReadRaises e # rds) s) = Stopped"
    unfolding b by (simp split: prod.splits worker.splits)
  show ?thesis
    using a [of rds s] b [of rds] b [of "[]"] c by (simp add: print_msg_def)
qed

lemma log_sound_iter_silence:
  "log_sound_iter 0 (Frame [0, 0]) \<lparr>buffer = [[]], quit_flag = False, printed = []\<rparr>
  = (\<lparr>buffer = [[Num 0]], quit_flag = False, printed = [DeviceStats 0 (Num 0) (Num 0)]\<rparr>,
     Running)"
  by (simp add: log_sound_iter_def frame_volume_def volume_of_def square_int16_def
      float_of_int16_def np_mean_def np_var_def mean_real_def np_sqrt_def buffer_push_def
      BUFFER_LIMIT_def calculate_device_stats_def print_msg_def word_cat_eq)

text \<open>
  One failed read, with no quit signal, stops the worker before the good frame that
  follows; without the failed read that frame is processed and the worker runs on.
\<close>

theorem failed_read_counterexample:
  "log_sound 0 [ReadRaises OSError, Frame [0, 0]]
      \<lparr>buffer = [[]], quit_flag = False, printed = []\<rparr>
    = (\<lparr>buffer = [[]], quit_flag = False, printed = [DeviceError 0 OSError]\<rparr>, Stopped)
   \<and> log_sound 0 [Frame [0, 0]] \<lparr>buffer = [[]], quit_flag = False, printed = []\<rparr>
    = (\<lparr>buffer = [[Num 0]], quit_flag = False, printed = [DeviceStats 0 (Num 0) (Num 0)]\<rparr>,
       Running)"
  by (simp add: log_sound_iter_silence) (simp add: log_sound_iter_def print_msg_def)

lemma quit_flag_print_msg: "quit_flag (print_msg m s) = quit_flag s"
  by (simp add: print_msg_def)

lemma quit_flag_log_sound_iter: "quit_flag (fst (log_sound_iter index rd s)) = quit_flag s"
  by (simp add: log_sound_iter_def quit_flag_print_msg Let_def
      split: read_result.splits sum.splits)

lemma quit_flag_step: "quit_flag s \<Longrightarrow> quit_flag (step s a)"
  by (cases a) (simp_all add: exit_method_def quit_flag_log_sound_iter split: sum.splits)

lemma quit_flag_run: "quit_flag s \<Longrightarrow> quit_flag (run s acts)"
  unfolding run_def by (induction acts arbitrary: s) (simp_all add: quit_flag_step)

text \<open>
  Claim C8. Calling \<^verbatim>\<open>exit_method\<close> a second time changes nothing; after the call
  the quit flag is set; and once the flag is set, calling it again leaves the state as it
  is and no sequence of actions of the program clears the flag.
\<close>

theorem shutdown_idempotent:
  "exit_method (exit_method s) = exit_method s
   \<and> quit_flag (exit_method s)
   \<and> (quit_flag s \<longrightarrow> exit_method s = s \<and> quit_flag (run s acts))"
  by (simp add: exit_method_def quit_flag_run)

theorem shutdown_idempotent_witness:
  "quit_flag (exit_method \<lparr>buffer = [[]], quit_flag = False, printed = []\<rparr>)
   \<and> quit_flag (run (exit_method \<lparr>buffer = [[]], quit_flag = False, printed = []\<rparr>)
        [Capture 0 (Frame [0, 0]), Periodic, Exit, Capture 0 (ReadRaises OSError)])"
  using shutdown_idempotent [of "exit_method \<lparr>buffer = [[]], quit_flag = False, printed = []\<rparr>"
      "[Capture 0 (Frame [0, 0]), Periodic, Exit, Capture 0 (ReadRaises OSError)]"]
  by (simp add: exit_method_def)

end
